theory Spec2Isabelle
  imports Main
begin


section \<open>Python text\<close>

text \<open>
  A Python \<open>str\<close> is a sequence of Unicode code points; it is modelled as a list of
  natural numbers, one per code point. String literals of the source that are plain
  ASCII are written with \<open>ascii\<close>; the other characters are given by their code point.
\<close>

type_synonym pystr = "nat list"

definition ascii :: "string \<Rightarrow> pystr" where
  "ascii s = map of_char s"

text \<open>The characters that \<open>str.strip()\<close> and \<open>str.split()\<close> treat as whitespace.\<close>

definition is_space :: "nat \<Rightarrow> bool" where
  "is_space c \<longleftrightarrow>
     (9 \<le> c \<and> c \<le> 13) \<or> (28 \<le> c \<and> c \<le> 32) \<or> c = 0x85 \<or> c = 0xA0 \<or> c = 0x1680 \<or>
     (0x2000 \<le> c \<and> c \<le> 0x200A) \<or> c = 0x2028 \<or> c = 0x2029 \<or> c = 0x202F \<or>
     c = 0x205F \<or> c = 0x3000"

text \<open>\<open>s.strip()\<close>: whitespace removed at both ends.\<close>

definition py_strip :: "pystr \<Rightarrow> pystr" where
  "py_strip s = rev (dropWhile is_space (rev (dropWhile is_space s)))"

text \<open>
  \<open>s.split()\<close>: the maximal runs of non-whitespace characters, in order. The scan keeps
  the token being read in \<open>cur\<close>.
\<close>

fun split_from :: "pystr \<Rightarrow> pystr \<Rightarrow> pystr list" where
  "split_from cur [] = (if cur = [] then [] else [cur])"
| "split_from cur (c # cs) =
     (if is_space c then (if cur = [] then split_from [] cs else cur # split_from [] cs)
      else split_from (cur @ [c]) cs)"

definition py_split :: "pystr \<Rightarrow> pystr list" where
  "py_split s = split_from [] s"

text \<open>\<open>sep.join(xs)\<close>.\<close>

fun py_join :: "pystr \<Rightarrow> pystr list \<Rightarrow> pystr" where
  "py_join sep [] = []"
| "py_join sep [x] = x"
| "py_join sep (x # y # ys) = x @ sep @ py_join sep (y # ys)"

text \<open>
  Iterating over a file opened in text mode: the lines of the text, each with its
  terminator, where \<open>\n\<close>, \<open>\r\<close> and \<open>\r\n\<close> all end a line and are read as \<open>\n\<close>.
  \<open>pending_cr\<close> says that the previous character was \<open>\r\<close>, so that a \<open>\n\<close> that
  follows belongs to the same terminator.
\<close>

fun lines_from :: "bool \<Rightarrow> pystr \<Rightarrow> pystr \<Rightarrow> pystr list" where
  "lines_from pending_cr cur [] = (if cur = [] then [] else [cur])"
| "lines_from pending_cr cur (c # cs) =
     (if c = 10 then
        (if pending_cr then lines_from False cur cs
         else (cur @ [10]) # lines_from False [] cs)
      else if c = 13 then (cur @ [10]) # lines_from True [] cs
      else lines_from False (cur @ [c]) cs)"

definition file_lines :: "pystr \<Rightarrow> pystr list" where
  "file_lines text = lines_from False [] text"

section \<open>The binding store\<close>

text \<open>
  The directory \<open>ServerBindQQqun\<close> holds one text file \<open>{group_id}.txt\<close> per group. It is
  modelled as a map from the group identifier to the text of its file; a group without a
  file is \<open>None\<close>.
\<close>

type_synonym store = "pystr \<Rightarrow> pystr option"


definition write_file :: "store \<Rightarrow> pystr \<Rightarrow> pystr \<Rightarrow> store" where
  "write_file fs group_id text = fs(group_id \<mapsto> text)"

text \<open>
  A stored record is the tuple of the tokens of its line: \<open>tuple(parts)\<close>, of two fields
  or more.
\<close>

type_synonym record_tuple = "pystr list"

text \<open>\<open>BindServerPlugin._load_servers\<close>: the loop over the lines of the file.\<close>

fun load_loop :: "record_tuple list \<Rightarrow> pystr list \<Rightarrow> record_tuple list" where
  "load_loop servers [] = servers"
| "load_loop servers (line # rest) =
     (let line = py_strip line in
      if line \<noteq> [] then
        (let parts = py_split line in
         if 2 \<le> length parts then load_loop (servers @ [parts]) rest
         else load_loop servers rest)
      else load_loop servers rest)"

definition load_servers :: "store \<Rightarrow> pystr \<Rightarrow> record_tuple list" where
  "load_servers fs group_id =
     (case fs group_id of
        None \<Rightarrow> []
      | Some text \<Rightarrow> load_loop [] (file_lines text))"

text \<open>
  The test \<open>record[0] == server_key and record[1] == account_id\<close>. Every record that
  \<open>load_servers\<close> returns has two fields or more (lemma \<open>load_servers_fields\<close>), so the
  index error of a shorter tuple cannot occur; the model gives \<open>False\<close> there.
\<close>

fun same_identity :: "record_tuple \<Rightarrow> pystr \<Rightarrow> pystr \<Rightarrow> bool" where
  "same_identity (k # a # more) server_key account_id \<longleftrightarrow> k = server_key \<and> a = account_id"
| "same_identity short server_key account_id \<longleftrightarrow> False"




definition msg_not_found :: pystr where
  "msg_not_found =
     [0x2139, 0xFE0F, 32, 0x672A, 0x627E, 0x5230, 0x5339, 0x914D, 0x7684, 0x670D, 0x52A1, 0x5668,
      0x4FE1, 0x606F]"

definition msg_removed :: "pystr \<Rightarrow> pystr \<Rightarrow> pystr" where
  "msg_removed server_key account_id =
     [0x2705, 32, 0x5DF2, 0x79FB, 0x9664, 0x670D, 0x52A1, 0x5668, 10] @ ascii ''Key: '' @ server_key
     @ [10] @ ascii ''AccountID: '' @ account_id"

text \<open>
  The optional argument \<open>port\<close> is \<open>None\<close> or a string; \<open>if port:\<close> holds for a string
  that is not empty.
\<close>

fun truthy_port :: "pystr option \<Rightarrow> bool" where
  "truthy_port None = False"
| "truthy_port (Some p) = (p \<noteq> [])"



text \<open>\<open>BindServerPlugin._remove_server\<close>.\<close>

definition remove_server :: "store \<Rightarrow> pystr \<Rightarrow> pystr \<Rightarrow> pystr \<Rightarrow> pystr \<times> store" where
  "remove_server fs group_id server_key account_id =
     (let servers = load_servers fs group_id;
          new_servers = filter (\<lambda>r. \<not> same_identity r server_key account_id) servers
      in if length new_servers = length servers then (msg_not_found, fs)
         else (msg_removed server_key account_id,
               write_file fs group_id
                 (concat (map (\<lambda>record. py_join [32] record @ [10]) new_servers))))"


text \<open>A token: text that is not empty and has no whitespace in it.\<close>

definition token :: "pystr \<Rightarrow> bool" where
  "token t \<longleftrightarrow> t \<noteq> [] \<and> (\<forall>c \<in> set t. \<not> is_space c)"

text \<open>A text is terminated when it is empty or ends with a line terminator.\<close>

definition terminated :: "pystr \<Rightarrow> bool" where
  "terminated text \<longleftrightarrow> text = [] \<or> last text = 10 \<or> last text = 13"

text \<open>A well-formed record: two tokens or more.\<close>

definition wf_record :: "record_tuple \<Rightarrow> bool" where
  "wf_record r \<longleftrightarrow> 2 \<le> length r \<and> (\<forall>t \<in> set r. token t)"

text \<open>The text of a group's file, empty when there is no file.\<close>

definition stored_text :: "store \<Rightarrow> pystr \<Rightarrow> pystr" where
  "stored_text fs group_id = (case fs group_id of None \<Rightarrow> [] | Some text \<Rightarrow> text)"


definition well_formed :: "pystr \<Rightarrow> pystr \<Rightarrow> pystr option \<Rightarrow> bool" where
  "well_formed k a port \<longleftrightarrow> token k \<and> token a \<and> (\<forall>p. port = Some p \<longrightarrow> token p)"


section \<open>Values decoded from JSON\<close>

text \<open>
  What \<open>json.loads\<close> returns. A float is given by the two things the plugin observes of
  it: whether it is non-zero (its truth value) and its \<open>str()\<close>. A dict is the list of
  its items; \<open>get\<close> finds the value of the first item with the key.
\<close>

datatype json =
    JNull
  | JBool bool
  | JInt int
  | JFloat bool pystr
  | JStr pystr
  | JArr "json list"
  | JObj "(pystr \<times> json) list"

text \<open>The exceptions that the rendering code can raise, and \<open>type(e).__name__\<close>.\<close>

datatype exc = AttributeError | TypeError

fun exc_name :: "exc \<Rightarrow> pystr" where
  "exc_name AttributeError = ascii ''AttributeError''"
| "exc_name TypeError = ascii ''TypeError''"

text \<open>Truth value of a value, as \<open>if x:\<close> and \<open>not x\<close> test it.\<close>

fun truthy :: "json \<Rightarrow> bool" where
  "truthy JNull = False"
| "truthy (JBool b) = b"
| "truthy (JInt i) = (i \<noteq> 0)"
| "truthy (JFloat nonzero s) = nonzero"
| "truthy (JStr s) = (s \<noteq> [])"
| "truthy (JArr xs) = (xs \<noteq> [])"
| "truthy (JObj kvs) = (kvs \<noteq> [])"

text \<open>\<open>d.get(key, default)\<close>.\<close>

definition dict_get :: "(pystr \<times> json) list \<Rightarrow> pystr \<Rightarrow> json \<Rightarrow> json" where
  "dict_get kvs key dflt = (case map_of kvs key of None \<Rightarrow> dflt | Some v \<Rightarrow> v)"

text \<open>Decimal numerals: \<open>str(n)\<close> of an integer.\<close>

fun str_nat :: "nat \<Rightarrow> pystr" where
  "str_nat n = (if n < 10 then [48 + n] else str_nat (n div 10) @ [48 + n mod 10])"

definition str_int :: "int \<Rightarrow> pystr" where
  "str_int i = (if i < 0 then 45 # str_nat (nat (- i)) else str_nat (nat i))"

text \<open>\<open>f"{j:2d}"\<close>: the numeral, with spaces on its left up to two characters.\<close>

definition fmt_2d :: "int \<Rightarrow> pystr" where
  "fmt_2d j = (let s = str_int j in replicate (2 - length s) 32 @ s)"

text \<open>
  \<open>str(v)\<close>, which is also what an f-string field prints. The text of a list or of a
  dict is its \<open>repr\<close>, which is taken as the parameter \<open>repr\<close>.
\<close>

fun py_str :: "(json \<Rightarrow> pystr) \<Rightarrow> json \<Rightarrow> pystr" where
  "py_str repr JNull = ascii ''None''"
| "py_str repr (JBool b) = (if b then ascii ''True'' else ascii ''False'')"
| "py_str repr (JInt i) = str_int i"
| "py_str repr (JFloat nonzero s) = s"
| "py_str repr (JStr s) = s"
| "py_str repr (JArr xs) = repr (JArr xs)"
| "py_str repr (JObj kvs) = repr (JObj kvs)"

text \<open>
  The items of \<open>for x in v\<close> and of a slice \<open>v[:n]\<close>: a list gives its elements and a
  string its characters; a dict is iterated over its keys and cannot be sliced; the other
  values raise \<open>TypeError\<close>. (Slicing a dict raises \<open>TypeError\<close> up to Python 3.11 and
  \<open>KeyError\<close> after; the model has the former.)
\<close>

fun py_iter :: "json \<Rightarrow> exc + json list" where
  "py_iter (JArr xs) = Inr xs"
| "py_iter (JStr s) = Inr (map (\<lambda>c. JStr [c]) s)"
| "py_iter (JObj kvs) = Inr (map (\<lambda>kv. JStr (fst kv)) kvs)"
| "py_iter v = Inl TypeError"

fun py_slice :: "json \<Rightarrow> nat \<Rightarrow> exc + json list" where
  "py_slice (JArr xs) n = Inr (take n xs)"
| "py_slice (JStr s) n = Inr (map (\<lambda>c. JStr [c]) (take n s))"
| "py_slice v n = Inl TypeError"

text \<open>\<open>len(v)\<close> of a value that was sliced.\<close>

fun py_len :: "json \<Rightarrow> nat" where
  "py_len (JArr xs) = length xs"
| "py_len (JStr s) = length s"
| "py_len (JObj kvs) = length kvs"
| "py_len v = 0"

section \<open>The server-name decoder\<close>

text \<open>
  \<open>base64.b64decode(s)\<close> of a string: the string has to be ASCII; then
  \<open>binascii.a2b_base64\<close> reads it without strict mode. Characters outside the alphabet
  are skipped; a pad \<open>=\<close> that completes a group ends the input; input that ends inside a
  group is an error. \<open>quad_pos\<close> is the position in the group of four, \<open>leftchar\<close> the bits
  not yet written, \<open>pads\<close> the pads seen since the last digit.
\<close>

definition b64_value :: "nat \<Rightarrow> nat option" where
  "b64_value c =
     (if 65 \<le> c \<and> c \<le> 90 then Some (c - 65)
      else if 97 \<le> c \<and> c \<le> 122 then Some (c - 71)
      else if 48 \<le> c \<and> c \<le> 57 then Some (c + 4)
      else if c = 43 then Some 62
      else if c = 47 then Some 63
      else None)"

fun a2b_base64 :: "nat \<Rightarrow> nat \<Rightarrow> nat \<Rightarrow> nat list \<Rightarrow> nat list option" where
  "a2b_base64 quad_pos leftchar pads [] = (if quad_pos \<noteq> 0 then None else Some [])"
| "a2b_base64 quad_pos leftchar pads (c # cs) =
     (if c = 61 then
        (if 2 \<le> quad_pos \<and> 4 \<le> quad_pos + (pads + 1) then Some []
         else a2b_base64 quad_pos leftchar (if 2 \<le> quad_pos then pads + 1 else pads) cs)
      else
        (case b64_value c of
           None \<Rightarrow> a2b_base64 quad_pos leftchar pads cs
         | Some v \<Rightarrow>
             (if quad_pos = 0 then a2b_base64 1 v 0 cs
              else if quad_pos = 1 then
                map_option ((#) (leftchar * 4 + v div 16)) (a2b_base64 2 (v mod 16) 0 cs)
              else if quad_pos = 2 then
                map_option ((#) (leftchar * 16 + v div 4)) (a2b_base64 3 (v mod 4) 0 cs)
              else map_option ((#) (leftchar * 64 + v)) (a2b_base64 0 0 0 cs))))"

definition b64decode :: "pystr \<Rightarrow> nat list option" where
  "b64decode s = (if \<forall>c \<in> set s. c < 128 then a2b_base64 0 0 0 s else None)"

text \<open>
  \<open>bytes.decode('utf-8', errors='ignore')\<close>: the code points of the well-formed
  sequences; the bytes of an ill-formed sequence are dropped up to the byte where it
  breaks, and a sequence cut by the end of the input is dropped.
\<close>

definition is_cont :: "nat \<Rightarrow> bool" where
  "is_cont b \<longleftrightarrow> 0x80 \<le> b \<and> b < 0xC0"

fun utf8_ignore :: "nat list \<Rightarrow> pystr" where
  "utf8_ignore [] = []"
| "utf8_ignore (b # bs) =
     (if b < 0x80 then b # utf8_ignore bs
      else if b < 0xC2 then utf8_ignore bs
      else if b < 0xE0 then
        (case bs of
           [] \<Rightarrow> []
         | b1 # r1 \<Rightarrow>
             if is_cont b1 then ((b - 0xC0) * 64 + (b1 - 0x80)) # utf8_ignore r1
             else utf8_ignore bs)
      else if b < 0xF0 then
        (case bs of
           [] \<Rightarrow> []
         | b1 # r1 \<Rightarrow>
             if \<not> is_cont b1 \<or> (if b1 < 0xA0 then b = 0xE0 else b = 0xED) then utf8_ignore bs
             else
               (case r1 of
                  [] \<Rightarrow> []
                | b2 # r2 \<Rightarrow>
                    if is_cont b2 then
                      ((b - 0xE0) * 4096 + (b1 - 0x80) * 64 + (b2 - 0x80)) # utf8_ignore r2
                    else utf8_ignore r1))
      else if b < 0xF5 then
        (case bs of
           [] \<Rightarrow> []
         | b1 # r1 \<Rightarrow>
             if \<not> is_cont b1 \<or> (if b1 < 0x90 then b = 0xF0 else b = 0xF4) then utf8_ignore bs
             else
               (case r1 of
                  [] \<Rightarrow> []
                | b2 # r2 \<Rightarrow>
                    if \<not> is_cont b2 then utf8_ignore r1
                    else
                      (case r2 of
                         [] \<Rightarrow> []
                       | b3 # r3 \<Rightarrow>
                           if is_cont b3 then
                             ((b - 0xF0) * 262144 + (b1 - 0x80) * 4096 + (b2 - 0x80) * 64
                              + (b3 - 0x80)) # utf8_ignore r3
                           else utf8_ignore r2)))
      else utf8_ignore bs)"

text \<open>
  The pattern \<open><[^>]+>|\[\/?[a-z]+\]\<close>, compiled with \<open>re.IGNORECASE\<close>. With that flag
  the class \<open>[a-z]\<close> matches the 52 ASCII letters and four more characters.
\<close>

definition is_letter :: "nat \<Rightarrow> bool" where
  "is_letter c \<longleftrightarrow>
     (65 \<le> c \<and> c \<le> 90) \<or> (97 \<le> c \<and> c \<le> 122) \<or> c = 0x130 \<or> c = 0x131 \<or> c = 0x17F \<or> c = 0x212A"

text \<open>
  The length of the match of the pattern at the start of a text, if there is one. The
  first alternative is \<open><\<close>, one character or more other than \<open>>\<close>, and \<open>>\<close>; the second is
  \<open>[\<close>, an optional \<open>/\<close>, one letter or more, and \<open>]\<close>. Each repetition is greedy, and
  giving characters back cannot make the rest match, so the match is determined.
\<close>

definition tag_match :: "pystr \<Rightarrow> nat option" where
  "tag_match s =
     (case s of
        [] \<Rightarrow> None
      | c # rest \<Rightarrow>
          if c = 60 then
            (let body = takeWhile (\<lambda>x. x \<noteq> 62) rest in
             if body \<noteq> [] \<and> length body < length rest then Some (length body + 2) else None)
          else if c = 91 then
            (let slash = (if rest \<noteq> [] \<and> hd rest = 47 then 1 else 0);
                 letters = takeWhile is_letter (drop slash rest);
                 after = drop (slash + length letters) rest
             in if letters \<noteq> [] \<and> after \<noteq> [] \<and> hd after = 93
                then Some (slash + length letters + 2) else None)
          else None)"

text \<open>\<open>tag_regex.sub('', text)\<close>: every match, found from left to right, is removed.\<close>

fun tag_sub :: "pystr \<Rightarrow> pystr" where
  "tag_sub [] = []"
| "tag_sub (c # cs) =
     (case tag_match (c # cs) of
        None \<Rightarrow> c # tag_sub cs
      | Some n \<Rightarrow> tag_sub (drop (n - 1) cs))"

definition unknown_server :: pystr where
  "unknown_server = [0x672A, 0x77E5, 0x670D, 0x52A1, 0x5668]"

definition name_parse_failed :: pystr where
  "name_parse_failed = [0x540D, 0x79F0, 0x89E3, 0x6790, 0x5931, 0x8D25]"

text \<open>
  \<open>QueryServerPlugin._extract_server_name\<close>. The argument is the value of the field
  \<open>Info\<close>, of any type; every exception of the decoding is caught and gives the
  failure text. A value that is not a string makes \<open>b64decode\<close> raise.
\<close>

definition extract_server_name :: "json \<Rightarrow> pystr" where
  "extract_server_name info_b64 =
     (if \<not> truthy info_b64 then unknown_server
      else
        (case info_b64 of
           JStr s \<Rightarrow>
             (case b64decode s of
                None \<Rightarrow> name_parse_failed
              | Some bytes \<Rightarrow>
                  (let decoded_info = utf8_ignore bytes;
                       clean_text = tag_sub decoded_info
                   in py_join [32] (py_split clean_text)))
         | _ \<Rightarrow> name_parse_failed))"

section \<open>The report renderer\<close>

definition unknown :: pystr where
  "unknown = [0x672A, 0x77E5]"

definition header_line :: "nat \<Rightarrow> pystr \<Rightarrow> pystr" where
  "header_line i account_id =
     [0x1F5A5, 0xFE0F, 32, 0x670D, 0x52A1, 0x5668] @ str_nat i @ ascii '' ['' @ account_id
     @ ascii '']''"

text \<open>The seven lines that every block starts with.\<close>

definition info_lines ::
  "(json \<Rightarrow> pystr) \<Rightarrow> nat \<Rightarrow> pystr \<Rightarrow> (pystr \<times> json) list \<Rightarrow> pystr \<Rightarrow> pystr list" where
  "info_lines repr i account_id server server_port =
     [header_line i account_id,
      ascii ''  '' @ [0x1F3F7, 0xFE0F, 32, 0x540D, 0x79F0] @ ascii '': ''
        @ extract_server_name (dict_get server (ascii ''Info'') (JStr [])),
      ascii ''  '' @ [0x1F194] @ ascii '' ID: ''
        @ py_str repr (dict_get server (ascii ''ID'') (JStr unknown)),
      ascii ''  '' @ [0x1F552, 32, 0x6700, 0x540E, 0x5728, 0x7EBF] @ ascii '': ''
        @ py_str repr (dict_get server (ascii ''LastOnline'') (JStr unknown)),
      ascii ''  '' @ [0x1F50C, 32, 0x7AEF, 0x53E3] @ ascii '': '' @ server_port,
      ascii ''  '' @ [0x1F4E6, 32, 0x7248, 0x672C] @ ascii '': ''
        @ py_str repr (dict_get server (ascii ''Version'') (JStr unknown)),
      ascii ''  '' @ [0x1F465, 32, 0x4EBA, 0x6570] @ ascii '': ''
        @ py_str repr (dict_get server (ascii ''Players'') (JStr (ascii ''0/0'')))]"

text \<open>The line of the features, when a flag is set.\<close>

definition flag_lines :: "(pystr \<times> json) list \<Rightarrow> pystr list" where
  "flag_lines server =
     (let flags = (if truthy (dict_get server (ascii ''FF'') JNull)
                   then [[0x1F4A5, 0x53CB, 0x4F24]] else [])
                @ (if truthy (dict_get server (ascii ''WL'') JNull)
                   then [[0x1F512, 0x767D, 0x540D, 0x5355]] else [])
                @ (if truthy (dict_get server (ascii ''Modded'') JNull)
                   then [[0x1F6E0, 0xFE0F, 0x6A21, 0x7EC4, 0x670D]] else [])
      in if flags \<noteq> []
         then [ascii ''  '' @ [0x1F3F7, 0xFE0F, 32, 0x7279, 0x6027] @ ascii '': ''
               @ py_join (ascii '' | '') flags]
         else [])"

definition players_header :: pystr where
  "players_header = ascii ''  '' @ [0x1F3AE, 32, 0x73A9, 0x5BB6, 0x5217, 0x8868, 58]"

definition no_players_line :: pystr where
  "no_players_line =
     ascii ''  '' @ [0x1F3DC, 0xFE0F, 32, 0x5F53, 0x524D, 0x65E0, 0x73A9, 0x5BB6, 0x5728, 0x7EBF]"

definition more_players_line :: "int \<Rightarrow> pystr" where
  "more_players_line n = ascii ''    ...'' @ [0x7B49] @ str_int n @ [0x4EBA]"

definition player_line :: "(json \<Rightarrow> pystr) \<Rightarrow> nat \<Rightarrow> (pystr \<times> json) list \<Rightarrow> pystr" where
  "player_line repr j player =
     ascii ''    '' @ fmt_2d (int j) @ ascii ''. ''
     @ py_str repr (dict_get player (ascii ''nickname'') (JStr unknown))"

text \<open>
  The loop \<open>for j, player in enumerate(players[:10], 1)\<close>: \<open>player.get\<close> raises
  \<open>AttributeError\<close> on a player that is not a dict.
\<close>

fun player_lines :: "(json \<Rightarrow> pystr) \<Rightarrow> nat \<Rightarrow> json list \<Rightarrow> exc + pystr list" where
  "player_lines repr j [] = Inr []"
| "player_lines repr j (player # rest) =
     (case player of
        JObj kvs \<Rightarrow>
          (case player_lines repr (j + 1) rest of
             Inl e \<Rightarrow> Inl e
           | Inr ls \<Rightarrow> Inr (player_line repr j kvs # ls))
      | _ \<Rightarrow> Inl AttributeError)"

text \<open>The lines of the player roster: the part of the loop body under \<open>if server.get('Online')\<close>.\<close>

definition roster_lines :: "(json \<Rightarrow> pystr) \<Rightarrow> (pystr \<times> json) list \<Rightarrow> exc + pystr list" where
  "roster_lines repr server =
     (if truthy (dict_get server (ascii ''Online'') JNull) then
        (let players = dict_get server (ascii ''PlayersList'') (JArr []) in
         if truthy players then
           (case py_slice players 10 of
              Inl e \<Rightarrow> Inl e
            | Inr first \<Rightarrow>
                (case player_lines repr 1 first of
                   Inl e \<Rightarrow> Inl e
                 | Inr ls \<Rightarrow>
                     Inr ([players_header] @ ls
                          @ (if 10 < py_len players
                             then [more_players_line (int (py_len players) - 10)] else []))))
         else Inr [no_players_line])
      else Inr [])"

text \<open>The block of one server entry that is kept.\<close>

definition render_server ::
  "(json \<Rightarrow> pystr) \<Rightarrow> nat \<Rightarrow> pystr \<Rightarrow> (pystr \<times> json) list \<Rightarrow> pystr \<Rightarrow> exc + pystr" where
  "render_server repr i account_id server server_port =
     (case roster_lines repr server of
        Inl e \<Rightarrow> Inl e
      | Inr roster \<Rightarrow>
          Inr (py_join [10]
                 (info_lines repr i account_id server server_port @ flag_lines server @ roster)))"

text \<open>
  The loop \<open>for i, server in enumerate(servers, 1)\<close> of \<open>_parse_servers\<close>: an entry that is
  not a dict is skipped, and so is one whose port differs from the filter; an exception
  in a block ends the call.
\<close>

fun servers_loop ::
  "(json \<Rightarrow> pystr) \<Rightarrow> pystr \<Rightarrow> pystr option \<Rightarrow> nat \<Rightarrow> json list \<Rightarrow> exc + pystr list" where
  "servers_loop repr account_id port i [] = Inr []"
| "servers_loop repr account_id port i (server # rest) =
     (case server of
        JObj kvs \<Rightarrow>
          (let server_port = py_str repr (dict_get kvs (ascii ''Port'') (JStr [])) in
           if truthy_port port \<and> server_port \<noteq> the port
           then servers_loop repr account_id port (i + 1) rest
           else
             (case render_server repr i account_id kvs server_port of
                Inl e \<Rightarrow> Inl e
              | Inr block \<Rightarrow>
                  (case servers_loop repr account_id port (i + 1) rest of
                     Inl e \<Rightarrow> Inl e
                   | Inr server_infos \<Rightarrow> Inr (block # server_infos))))
      | _ \<Rightarrow> servers_loop repr account_id port (i + 1) rest)"

definition api_failed_line :: "pystr \<Rightarrow> pystr" where
  "api_failed_line server_key =
     [0x1F534, 32] @ server_key @ [32, 0x8BF7, 0x6C42, 0x5931, 0x8D25] @ ascii ''(API''
     @ [0x8FD4, 0x56DE, 0x5931, 0x8D25, 41]"

definition no_data_line :: "pystr \<Rightarrow> pystr" where
  "no_data_line server_key =
     [0x1F7E1, 32] @ server_key @ [32, 0x65E0, 0x670D, 0x52A1, 0x5668, 0x6570, 0x636E]"

definition port_not_found_line :: "pystr \<Rightarrow> pystr" where
  "port_not_found_line port =
     [0x1F7E1, 32, 0x672A, 0x627E, 0x5230, 0x7AEF, 0x53E3, 32] @ port
     @ [32, 0x7684, 0x670D, 0x52A1, 0x5668, 0x6570, 0x636E]"

text \<open>
  \<open>QueryServerPlugin._parse_servers\<close>. \<open>data\<close> is whatever the body decoded to;
  \<open>data.get\<close> raises \<open>AttributeError\<close> when it is not a dict.
\<close>

definition parse_servers ::
  "(json \<Rightarrow> pystr) \<Rightarrow> pystr \<Rightarrow> pystr \<Rightarrow> json \<Rightarrow> pystr option \<Rightarrow> exc + pystr list" where
  "parse_servers repr server_key account_id data port =
     (case data of
        JObj kvs \<Rightarrow>
          (if \<not> truthy (dict_get kvs (ascii ''Success'') (JBool False))
           then Inr [api_failed_line server_key]
           else
             (let servers = dict_get kvs (ascii ''Servers'') (JArr []) in
              if \<not> truthy servers then Inr [no_data_line server_key]
              else
                (case py_iter servers of
                   Inl e \<Rightarrow> Inl e
                 | Inr entries \<Rightarrow>
                     (case servers_loop repr account_id port 1 entries of
                        Inl e \<Rightarrow> Inl e
                      | Inr server_infos \<Rightarrow>
                          if truthy_port port \<and> server_infos = []
                          then Inr [port_not_found_line (the port)]
                          else Inr server_infos))))
      | _ \<Rightarrow> Inl AttributeError)"

section \<open>The query command\<close>

text \<open>A query target: server key, account id and the port, if the line has a third token.\<close>

type_synonym target = "pystr \<times> pystr \<times> pystr option"

text \<open>
  The loop of \<open>QueryServerPlugin.handle\<close> that reads the file of the group: a target is
  appended when it is not yet in the list.
\<close>

fun targets_loop :: "target list \<Rightarrow> pystr list \<Rightarrow> target list" where
  "targets_loop server_infos [] = server_infos"
| "targets_loop server_infos (line # rest) =
     (let line = py_strip line in
      if line \<noteq> [] then
        (let parts = py_split line in
         if 2 \<le> length parts then
           (let server_info =
                  (parts ! 0, parts ! 1, if 3 \<le> length parts then Some (parts ! 2) else None)
            in if server_info \<notin> set server_infos
               then targets_loop (server_infos @ [server_info]) rest
               else targets_loop server_infos rest)
         else targets_loop server_infos rest)
      else targets_loop server_infos rest)"

text \<open>
  What one request to the status API comes to: a timeout, another exception (given by the
  name of its class), or a response with its status and, when the status is 200, what
  \<open>json.loads\<close> makes of its body.
\<close>

datatype body = NotJson | Json json

datatype outcome = TimedOut | Raised pystr | Responded int body

text \<open>
  The remote API is a parameter: it maps the number of the request within the command
  (from 0), the account id and the server key of the request to its outcome.
\<close>

type_synonym api = "nat \<Rightarrow> pystr \<Rightarrow> pystr \<Rightarrow> outcome"

definition http_failed_line :: "pystr \<Rightarrow> int \<Rightarrow> pystr" where
  "http_failed_line server_key status =
     [0x1F534, 32] @ server_key @ [32, 0x8BF7, 0x6C42, 0x5931, 0x8D25] @ ascii ''(HTTP ''
     @ str_int status @ [41]"

definition bad_format_line :: "pystr \<Rightarrow> pystr" where
  "bad_format_line server_key =
     [0x26A0, 0xFE0F, 32] @ server_key
     @ [32, 0x8FD4, 0x56DE, 0x6570, 0x636E, 0x683C, 0x5F0F, 0x5F02, 0x5E38]"

definition timeout_line :: "pystr \<Rightarrow> pystr" where
  "timeout_line server_key = [0x23F3, 32] @ server_key @ [32, 0x8BF7, 0x6C42, 0x8D85, 0x65F6]"

definition exception_line :: "pystr \<Rightarrow> pystr \<Rightarrow> pystr" where
  "exception_line server_key name =
     [0x26A0, 0xFE0F, 32] @ server_key @ [32, 0x67E5, 0x8BE2, 0x5F02, 0x5E38] @ ascii '': '' @ name"

text \<open>The result lines of one target: the body of the loop over the targets.\<close>

definition query_one :: "(json \<Rightarrow> pystr) \<Rightarrow> outcome \<Rightarrow> target \<Rightarrow> pystr list" where
  "query_one repr out tgt =
     (case tgt of (server_key, account_id, port) \<Rightarrow>
        (case out of
           TimedOut \<Rightarrow> [timeout_line server_key]
         | Raised name \<Rightarrow> [exception_line server_key name]
         | Responded status b \<Rightarrow>
             if status \<noteq> 200 then [http_failed_line server_key status]
             else
               (case b of
                  NotJson \<Rightarrow> [bad_format_line server_key]
                | Json data \<Rightarrow>
                    (case parse_servers repr server_key account_id data port of
                       Inl e \<Rightarrow> [exception_line server_key (exc_name e)]
                     | Inr lines \<Rightarrow> lines))))"

text \<open>
  The loop over the targets, one request after the other: \<open>results\<close> grows by the lines
  of each target, \<open>requests\<close> records the pairs (account id, server key) that were sent
  as \<open>id\<close> and \<open>key\<close>, and \<open>n\<close> counts the requests.
\<close>

fun query_loop ::
  "(json \<Rightarrow> pystr) \<Rightarrow> api \<Rightarrow> nat \<Rightarrow> pystr list \<Rightarrow> (pystr \<times> pystr) list \<Rightarrow> target list
   \<Rightarrow> pystr list \<times> (pystr \<times> pystr) list" where
  "query_loop repr remote n results requests [] = (results, requests)"
| "query_loop repr remote n results requests ((server_key, account_id, port) # rest) =
     query_loop repr remote (n + 1)
       (results @ query_one repr (remote n account_id server_key) (server_key, account_id, port))
       (requests @ [(account_id, server_key)]) rest"

definition not_bound_msg :: pystr where
  "not_bound_msg =
     [0x26A0, 0xFE0F, 32, 0x672C, 0x7FA4, 0x672A, 0x7ED1, 0x5B9A, 0x670D, 0x52A1, 0x5668, 10,
      0x8BF7, 0x5148, 0x4F7F, 0x7528, 0x300C, 47, 0x7ED1, 0x5B9A, 0x670D, 0x52A1, 0x5668]
     @ ascii '' Add'' @ [0x300D, 0x547D, 0x4EE4]"

definition empty_bindings_msg :: pystr where
  "empty_bindings_msg =
     [0x26A0, 0xFE0F, 32, 0x672C, 0x7FA4, 0x7ED1, 0x5B9A, 0x7684, 0x670D, 0x52A1, 0x5668, 0x4FE1,
      0x606F, 0x4E3A, 0x7A7A]"

definition all_failed_msg :: pystr where
  "all_failed_msg =
     [0x274C, 32, 0x6240, 0x6709, 0x670D, 0x52A1, 0x5668, 0x67E5, 0x8BE2, 0x5931, 0x8D25]"

text \<open>
  What a run of the query command leaves: its reply, the requests it sent, in order, and
  the store after it.
\<close>

record query_run =
  reply :: pystr
  requests :: "(pystr \<times> pystr) list"
  store_after :: store

text \<open>\<open>QueryServerPlugin.handle\<close>.\<close>

definition handle_query :: "(json \<Rightarrow> pystr) \<Rightarrow> api \<Rightarrow> store \<Rightarrow> pystr \<Rightarrow> query_run" where
  "handle_query repr remote fs group_openid =
     (case fs group_openid of
        None \<Rightarrow> \<lparr>reply = not_bound_msg, requests = [], store_after = fs\<rparr>
      | Some text \<Rightarrow>
          (let server_infos = targets_loop [] (file_lines text) in
           if server_infos = [] then
             \<lparr>reply = empty_bindings_msg, requests = [], store_after = fs\<rparr>
           else
             (let (results, sent) = query_loop repr remote 0 [] [] server_infos in
              \<lparr>reply = (if results \<noteq> [] then py_join [10, 10] results else all_failed_msg),
               requests = sent, store_after = fs\<rparr>)))"

text \<open>
  The targets as the specification words them: the first occurrence of every tuple, in
  the order in which the tuples are first seen.
\<close>

fun first_seen :: "'a list \<Rightarrow> 'a list" where
  "first_seen [] = []"
| "first_seen (x # xs) = x # first_seen (filter (\<lambda>y. y \<noteq> x) xs)"

text \<open>The target of a stored record.\<close>

definition target_of :: "record_tuple \<Rightarrow> target" where
  "target_of r = (r ! 0, r ! 1, if 3 \<le> length r then Some (r ! 2) else None)"

section \<open>The renderer as the specification words it\<close>

text \<open>
  \<open>enumerate(xs, i)\<close>: the elements of a sequence, each with its position, counted
  from \<open>i\<close>.
\<close>

definition enumerate_from :: "nat \<Rightarrow> 'a list \<Rightarrow> (nat \<times> 'a) list" where
  "enumerate_from i xs = zip [i..<i + length xs] xs"

text \<open>
  The text of the port of a server entry, and the entries that are kept: the dicts, and
  under a port filter those whose port text is the filter.
\<close>

definition port_text :: "(json \<Rightarrow> pystr) \<Rightarrow> (pystr \<times> json) list \<Rightarrow> pystr" where
  "port_text repr kvs = py_str repr (dict_get kvs (ascii ''Port'') (JStr []))"

fun kept :: "(json \<Rightarrow> pystr) \<Rightarrow> pystr option \<Rightarrow> json \<Rightarrow> bool" where
  "kept repr port (JObj kvs) = (truthy_port port \<longrightarrow> port_text repr kvs = the port)"
| "kept repr port v = False"

text \<open>The items of a value that is a dict (none for another value).\<close>

fun obj_items :: "json \<Rightarrow> (pystr \<times> json) list" where
  "obj_items (JObj kvs) = kvs"
| "obj_items v = []"

fun is_obj :: "json \<Rightarrow> bool" where
  "is_obj (JObj kvs) = True"
| "is_obj v = False"

text \<open>The blocks of a list of numbered entries, one after the other.\<close>

fun render_each :: "(json \<Rightarrow> pystr) \<Rightarrow> pystr \<Rightarrow> (nat \<times> json) list \<Rightarrow> exc + pystr list" where
  "render_each repr account_id [] = Inr []"
| "render_each repr account_id ((i, server) # rest) =
     (case render_server repr i account_id (obj_items server) (port_text repr (obj_items server)) of
        Inl e \<Rightarrow> Inl e
      | Inr block \<Rightarrow>
          (case render_each repr account_id rest of
             Inl e \<Rightarrow> Inl e
           | Inr blocks \<Rightarrow> Inr (block # blocks)))"

section \<open>Example inputs\<close>

text \<open>A \<open>repr\<close> for the examples, in which no list or dict is printed.\<close>

definition example_repr :: "json \<Rightarrow> pystr" where
  "example_repr v = []"

text \<open>
  A remote API whose first request times out, whose second is answered with status 500
  and whose later ones are answered with status 200 and the given JSON value.
\<close>

definition example_api :: "json \<Rightarrow> api" where
  "example_api data n account_id server_key =
     (if n = 0 then TimedOut
      else if n = 1 then Responded 500 NotJson
      else Responded 200 (Json data))"

text \<open>A store with three bindings for the group \<open>g\<close>.\<close>

definition example_store :: store where
  "example_store =
     Map.empty(ascii ''g'' \<mapsto>
       ascii ''k1 a1'' @ [10] @ ascii ''k2 a2'' @ [10] @ ascii ''k3 a3'' @ [10])"

text \<open>A successful response with the given server entries.\<close>

definition example_response :: "json list \<Rightarrow> json" where
  "example_response servers =
     JObj [(ascii ''Success'', JBool True), (ascii ''Servers'', JArr servers)]"

text \<open>A server entry that is a dict with just a port.\<close>

definition example_server :: "int \<Rightarrow> json" where
  "example_server port = JObj [(ascii ''Port'', JInt port)]"



lemmas bind_eval = load_servers_def file_lines_def py_strip_def py_split_def is_space_def ascii_def
  stored_text_def terminated_def well_formed_def token_def Let_def

section \<open>Splitting and joining\<close>

lemma split_from_token:
  "\<forall>c \<in> set t. \<not> is_space c \<Longrightarrow> split_from cur (t @ rest) = split_from (cur @ t) rest"
  by (induction t arbitrary: cur) auto

lemma split_from_space:
  "cur \<noteq> [] \<Longrightarrow> split_from cur (32 # rest) = cur # split_from [] rest"
  by (simp add: is_space_def)

lemma split_join_tokens:
  "\<forall>t \<in> set ts. token t \<Longrightarrow> split_from [] (py_join [32] ts) = ts"
proof (induction "[32::nat]" ts rule: py_join.induct)
  case 1
  show ?case by simp
next
  case (2 x)
  then have "split_from [] (x @ []) = split_from ([] @ x) []"
    using split_from_token[of x "[]" "[]"] by (simp add: token_def)
  with 2 show ?case by (simp add: token_def)
next
  case (3 x y ys)
  from 3(2) have x: "\<forall>c \<in> set x. \<not> is_space c" "x \<noteq> []"
    by (simp_all add: token_def)
  have "split_from [] (x @ 32 # py_join [32] (y # ys)) = split_from x (32 # py_join [32] (y # ys))"
    using split_from_token[OF x(1), of "[]"] by simp
  also have "\<dots> = x # split_from [] (py_join [32] (y # ys))"
    using x(2) by (rule split_from_space)
  also have "\<dots> = x # y # ys"
    using 3 by simp
  finally show ?case by simp
qed

lemma split_from_tokens:
  "\<forall>c \<in> set cur. \<not> is_space c \<Longrightarrow> t \<in> set (split_from cur s) \<Longrightarrow> token t"
proof (induction s arbitrary: cur)
  case Nil
  then show ?case by (auto simp: token_def split: if_splits)
next
  case (Cons a s)
  show ?case
  proof (cases "is_space a")
    case True
    with Cons.prems(2) have "t = cur \<and> cur \<noteq> [] \<or> t \<in> set (split_from [] s)"
      by (auto split: if_splits)
    then show ?thesis
    proof
      assume "t = cur \<and> cur \<noteq> []"
      with Cons.prems(1) show ?thesis by (simp add: token_def)
    next
      assume "t \<in> set (split_from [] s)"
      then show ?thesis using Cons.IH[of "[]"] by simp
    qed
  next
    case False
    with Cons.prems(2) have "t \<in> set (split_from (cur @ [a]) s)" by simp
    moreover have "\<forall>c \<in> set (cur @ [a]). \<not> is_space c"
      using Cons.prems(1) False by simp
    ultimately show ?thesis using Cons.IH[of "cur @ [a]"] by blast
  qed
qed

lemma py_split_tokens: "t \<in> set (py_split s) \<Longrightarrow> token t"
  using split_from_tokens[of "[]" t s] by (simp add: py_split_def)


lemma join_tokens_no_space:
  "\<forall>t \<in> set ts. token t \<Longrightarrow> c \<in> set (py_join [32] ts) \<Longrightarrow> c = 32 \<or> \<not> is_space c"
  by (induction "[32::nat]" ts rule: py_join.induct) (auto simp: token_def)

lemma join_tokens_nonempty:
  "ts \<noteq> [] \<Longrightarrow> \<forall>t \<in> set ts. token t \<Longrightarrow> py_join [32] ts \<noteq> []"
  by (induction "[32::nat]" ts rule: py_join.induct) (auto simp: token_def)

lemma join_tokens_hd:
  "ts \<noteq> [] \<Longrightarrow> \<forall>t \<in> set ts. token t \<Longrightarrow> \<not> is_space (hd (py_join [32] ts))"
  by (induction "[32::nat]" ts rule: py_join.induct) (auto simp: token_def)

lemma join_tokens_last:
  "ts \<noteq> [] \<Longrightarrow> \<forall>t \<in> set ts. token t \<Longrightarrow> \<not> is_space (last (py_join [32] ts))"
proof (induction "[32::nat]" ts rule: py_join.induct)
  case 1
  then show ?case by simp
next
  case (2 x)
  then show ?case by (simp add: token_def)
next
  case (3 x y ys)
  then have "py_join [32] (y # ys) \<noteq> []"
    using join_tokens_nonempty[of "y # ys"] by simp
  with 3 show ?case by simp
qed

lemma strip_trailing:
  assumes "s \<noteq> []" and "\<not> is_space (hd s)" and "\<not> is_space (last s)"
    and "\<forall>c \<in> set w. is_space c"
  shows "py_strip (s @ w) = s"
proof -
  from assms(1,2) have "dropWhile is_space (s @ w) = s @ w"
    by (cases s) simp_all
  moreover have "dropWhile is_space (rev w @ rev s) = dropWhile is_space (rev s)"
    using assms(4) by (intro dropWhile_append2) simp
  moreover from assms(1,3) have "dropWhile is_space (rev s) = rev s"
    by (cases "rev s") (simp_all add: last_rev[symmetric] hd_rev)
  ultimately show ?thesis by (simp add: py_strip_def)
qed

section \<open>Lines of a file\<close>

lemma lines_from_split:
  "old \<noteq> [] \<Longrightarrow> last old = 10 \<or> last old = 13 \<Longrightarrow> pending \<longrightarrow> cur = [] \<Longrightarrow>
   \<exists>pending'. \<forall>rest. lines_from pending cur (old @ rest)
      = lines_from pending cur old @ lines_from pending' [] rest"
proof (induction old arbitrary: pending cur)
  case Nil
  then show ?case by simp
next
  case (Cons c old)
  show ?case
  proof (cases "old = []")
    case True
    with Cons.prems have c: "c = 10 \<or> c = 13" by simp
    show ?thesis
    proof (cases "c = 10")
      case True
      with \<open>old = []\<close> Cons.prems(3) show ?thesis
        by (intro exI[of _ False]) auto
    next
      case False
      with c \<open>old = []\<close> show ?thesis
        by (intro exI[of _ True]) auto
    qed
  next
    case False
    with Cons.prems have l: "last old = 10 \<or> last old = 13" by simp
    consider "c = 10" "pending" | "c = 10" "\<not> pending" | "c = 13" | "c \<noteq> 10" "c \<noteq> 13"
      by blast
    then show ?thesis
    proof cases
      case 1
      with Cons.prems(3) have "cur = []" by simp
      from Cons.IH[OF False l, of False cur] obtain p' where
        "\<forall>rest. lines_from False cur (old @ rest) = lines_from False cur old @ lines_from p' [] rest"
        by auto
      with 1 show ?thesis by (intro exI[of _ p']) simp
    next
      case 2
      from Cons.IH[OF False l, of False "[]"] obtain p' where
        "\<forall>rest. lines_from False [] (old @ rest) = lines_from False [] old @ lines_from p' [] rest"
        by auto
      with 2 show ?thesis by (intro exI[of _ p']) simp
    next
      case 3
      from Cons.IH[OF False l, of True "[]"] obtain p' where
        "\<forall>rest. lines_from True [] (old @ rest) = lines_from True [] old @ lines_from p' [] rest"
        by auto
      with 3 show ?thesis by (intro exI[of _ p']) simp
    next
      case 4
      from Cons.IH[OF False l, of False "cur @ [c]"] obtain p' where
        "\<forall>rest. lines_from False (cur @ [c]) (old @ rest)
           = lines_from False (cur @ [c]) old @ lines_from p' [] rest"
        by auto
      with 4 show ?thesis by (intro exI[of _ p']) simp
    qed
  qed
qed

lemma lines_from_body:
  "\<forall>c \<in> set b. c \<noteq> 10 \<and> c \<noteq> 13 \<Longrightarrow>
   lines_from False cur (b @ [10]) = [cur @ b @ [10]]"
  by (induction b arbitrary: cur) auto

lemma lines_from_one:
  assumes "b \<noteq> []" and "\<forall>c \<in> set b. c \<noteq> 10 \<and> c \<noteq> 13"
  shows "lines_from pending [] (b @ [10]) = [b @ [10]]"
proof -
  from assms(1) obtain c b' where b: "b = c # b'" by (cases b) auto
  with assms(2) have "lines_from pending [] (b @ [10]) = lines_from False [c] (b' @ [10])"
    by simp
  also have "\<dots> = [[c] @ b' @ [10]]"
    using assms(2) b by (intro lines_from_body) simp
  finally show ?thesis using b by simp
qed

lemma file_lines_append:
  assumes "terminated text" and "b \<noteq> []" and "\<forall>c \<in> set b. c \<noteq> 10 \<and> c \<noteq> 13"
  shows "file_lines (text @ b @ [10]) = file_lines text @ [b @ [10]]"
proof (cases "text = []")
  case True
  then show ?thesis
    using lines_from_one[OF assms(2,3), of False] by (simp add: file_lines_def)
next
  case False
  with assms(1) have "last text = 10 \<or> last text = 13" by (simp add: terminated_def)
  from lines_from_split[OF False this, of False "[]"] obtain p' where
    "\<forall>rest. lines_from False [] (text @ rest) = lines_from False [] text @ lines_from p' [] rest"
    by auto
  then have "lines_from False [] (text @ b @ [10])
      = lines_from False [] text @ lines_from p' [] (b @ [10])"
    by blast
  then show ?thesis
    using lines_from_one[OF assms(2,3), of p'] by (simp add: file_lines_def)
qed

section \<open>Loading what was written\<close>

lemma load_loop_acc: "load_loop servers ls = servers @ load_loop [] ls"
proof (induction ls arbitrary: servers)
  case Nil
  show ?case by simp
next
  case (Cons l ls)
  show ?case
    using Cons.IH[of "servers @ [py_split (py_strip l)]"] Cons.IH[of servers]
      Cons.IH[of "[py_split (py_strip l)]"]
    by (simp add: Let_def)
qed

lemma load_loop_append: "load_loop servers (xs @ ys) = load_loop (load_loop servers xs) ys"
  by (induction xs arbitrary: servers) (simp_all add: Let_def)

lemma load_loop_wf: "\<forall>r \<in> set servers. wf_record r \<Longrightarrow> r \<in> set (load_loop servers ls) \<Longrightarrow> wf_record r"
proof (induction ls arbitrary: servers)
  case Nil
  then show ?case by simp
next
  case (Cons l ls)
  have wf: "wf_record (py_split (py_strip l))" if "2 \<le> length (py_split (py_strip l))"
    using that py_split_tokens by (auto simp: wf_record_def)
  show ?case
  proof (cases "py_strip l \<noteq> [] \<and> 2 \<le> length (py_split (py_strip l))")
    case True
    with Cons.prems(2) have "r \<in> set (load_loop (servers @ [py_split (py_strip l)]) ls)"
      by (simp add: Let_def)
    moreover have "\<forall>r \<in> set (servers @ [py_split (py_strip l)]). wf_record r"
      using Cons.prems(1) wf True by simp
    ultimately show ?thesis using Cons.IH by blast
  next
    case False
    with Cons.prems(2) have "r \<in> set (load_loop servers ls)"
      by (auto simp: Let_def split: if_splits)
    with Cons.prems(1) show ?thesis using Cons.IH by blast
  qed
qed

lemma load_servers_wf: "r \<in> set (load_servers fs group_id) \<Longrightarrow> wf_record r"
  using load_loop_wf[of "[]" r] by (auto simp: load_servers_def split: option.splits)

lemma load_servers_fields: "r \<in> set (load_servers fs group_id) \<Longrightarrow> 2 \<le> length r"
  using load_servers_wf[of r fs group_id] by (simp add: wf_record_def)

lemma load_line:
  assumes "wf_record r"
  shows "load_loop servers [py_join [32] r @ [10]] = servers @ [r]"
proof -
  from assms have ne: "r \<noteq> []" and tk: "\<forall>t \<in> set r. token t" and len: "2 \<le> length r"
    by (auto simp: wf_record_def)
  have "py_strip (py_join [32] r @ [10]) = py_join [32] r"
    using join_tokens_nonempty[OF ne tk] join_tokens_hd[OF ne tk] join_tokens_last[OF ne tk]
    by (intro strip_trailing) (simp_all add: is_space_def)
  moreover have "py_split (py_join [32] r) = r"
    using split_join_tokens[OF tk] by (simp add: py_split_def)
  ultimately show ?thesis
    using join_tokens_nonempty[OF ne tk] len by (simp add: Let_def)
qed

lemma load_text_append:
  assumes "terminated text" and "wf_record r"
  shows "load_loop [] (file_lines (text @ py_join [32] r @ [10]))
         = load_loop [] (file_lines text) @ [r]"
proof -
  from assms(2) have ne: "r \<noteq> []" and tk: "\<forall>t \<in> set r. token t"
    by (auto simp: wf_record_def)
  have nl: "\<forall>c \<in> set (py_join [32] r). c \<noteq> 10 \<and> c \<noteq> 13"
  proof
    fix c assume "c \<in> set (py_join [32] r)"
    then have "c = 32 \<or> \<not> is_space c" by (rule join_tokens_no_space[OF tk])
    moreover have "is_space 10" "is_space 13" by (simp_all add: is_space_def)
    ultimately show "c \<noteq> 10 \<and> c \<noteq> 13" by auto
  qed
  have "file_lines (text @ py_join [32] r @ [10]) = file_lines text @ [py_join [32] r @ [10]]"
    using assms(1) join_tokens_nonempty[OF ne tk] nl by (rule file_lines_append)
  then show ?thesis
    using load_line[OF assms(2)] by (simp add: load_loop_append)
qed

lemma terminated_append: "terminated (text @ b @ [10])"
  by (simp add: terminated_def)

lemma load_written:
  "\<forall>r \<in> set rs. wf_record r \<Longrightarrow>
   load_loop [] (file_lines (concat (map (\<lambda>record. py_join [32] record @ [10]) rs))) = rs"
proof (induction rs rule: rev_induct)
  case Nil
  show ?case by (simp add: file_lines_def)
next
  case (snoc r rs)
  let ?text = "concat (map (\<lambda>record. py_join [32] record @ [10]) rs)"
  have "terminated ?text"
  proof (cases rs rule: rev_cases)
    case Nil
    then show ?thesis by (simp add: terminated_def)
  next
    case (snoc rs' r')
    then show ?thesis by (simp add: terminated_def)
  qed
  moreover from snoc.prems have "wf_record r" by simp
  ultimately have "load_loop [] (file_lines (?text @ py_join [32] r @ [10]))
      = load_loop [] (file_lines ?text) @ [r]"
    by (rule load_text_append)
  with snoc show ?case by simp
qed


section \<open>Adding and removing bindings\<close>

lemma same_identity_take: "same_identity r k a \<longleftrightarrow> take 2 r = [k, a]"
proof (cases r)
  case Nil
  then show ?thesis by simp
next
  case (Cons x xs)
  then show ?thesis by (cases xs) simp_all
qed


lemma filter_same_length: "length (filter P xs) = length xs \<Longrightarrow> filter P xs = xs"
proof (induction xs)
  case Nil
  show ?case by simp
next
  case (Cons x xs)
  have le: "length (filter P xs) \<le> length xs" by (rule length_filter_le)
  show ?case
  proof (cases "P x")
    case True
    with Cons show ?thesis by simp
  next
    case False
    with Cons.prems le show ?thesis by simp
  qed
qed



lemma load_servers_absent: "fs g = None \<Longrightarrow> load_servers fs g = []"
  by (simp add: load_servers_def)










lemma remove_server_load:
  "load_servers (snd (remove_server fs g k a)) g
   = filter (\<lambda>r. take 2 r \<noteq> [k, a]) (load_servers fs g)"
proof -
  let ?servers = "load_servers fs g"
  let ?new = "filter (\<lambda>r. \<not> same_identity r k a) ?servers"
  show ?thesis
  proof (cases "length ?new = length ?servers")
    case True
    then have "?new = ?servers" by (rule filter_same_length)
    moreover from True have "snd (remove_server fs g k a) = fs"
      by (simp add: remove_server_def Let_def)
    ultimately show ?thesis by (simp add: same_identity_take)
  next
    case False
    have "\<forall>r \<in> set ?new. wf_record r"
      using load_servers_wf by auto
    then have "load_loop [] (file_lines (concat (map (\<lambda>record. py_join [32] record @ [10]) ?new)))
        = ?new"
      by (rule load_written)
    with False show ?thesis
      by (simp add: remove_server_def Let_def write_file_def load_servers_def same_identity_take)
  qed
qed

lemma remove_server_none:
  assumes "\<forall>r \<in> set (load_servers fs g). take 2 r \<noteq> [k, a]"
  shows "remove_server fs g k a = (msg_not_found, fs)"
proof -
  from assms have "filter (\<lambda>r. \<not> same_identity r k a) (load_servers fs g) = load_servers fs g"
    by (simp add: same_identity_take)
  then show ?thesis by (simp add: remove_server_def Let_def)
qed

lemma remove_server_some:
  assumes "\<exists>r \<in> set (load_servers fs g). take 2 r = [k, a]"
  shows "fst (remove_server fs g k a) = msg_removed k a"
proof -
  let ?servers = "load_servers fs g"
  from assms obtain r where "r \<in> set ?servers" "\<not> \<not> same_identity r k a"
    by (auto simp: same_identity_take)
  then have "length (filter (\<lambda>r. \<not> same_identity r k a) ?servers) < length ?servers"
    by (rule length_filter_less)
  then show ?thesis by (simp add: remove_server_def Let_def)
qed

lemma remove_server_frame: "g' \<noteq> g \<Longrightarrow> snd (remove_server fs g k a) g' = fs g'"
  by (simp add: remove_server_def Let_def write_file_def)

text \<open>
  Claim C2. After \<open>_remove_server\<close> the records of the group are those of before whose
  first two fields are not the given server key and account id, in the same order: every
  matching record is gone, whatever port (or further field) it carries. The files of the
  other groups are unchanged. When no record matches, the reply is the not-found message
  and the store is unchanged; when one matches, the reply is the removed message.
\<close>

theorem remove_server_filters:
  "load_servers (snd (remove_server fs g k a)) g
     = filter (\<lambda>r. take 2 r \<noteq> [k, a]) (load_servers fs g)
   \<and> (\<forall>g'. g' \<noteq> g \<longrightarrow> snd (remove_server fs g k a) g' = fs g')
   \<and> ((\<forall>r \<in> set (load_servers fs g). take 2 r \<noteq> [k, a]) \<longrightarrow>
        remove_server fs g k a = (msg_not_found, fs))
   \<and> ((\<exists>r \<in> set (load_servers fs g). take 2 r = [k, a]) \<longrightarrow>
        fst (remove_server fs g k a) = msg_removed k a)"
  using remove_server_load remove_server_none remove_server_some remove_server_frame
  by blast

theorem remove_server_filters_witness:
  "load_servers (snd (remove_server
       (Map.empty(ascii ''g'' \<mapsto> ascii ''k1 a1 7777'' @ [10] @ ascii ''k2 a2'' @ [10] @ ascii ''k1 a1'' @ [10]))
       (ascii ''g'') (ascii ''k1'') (ascii ''a1''))) (ascii ''g'')
     = [[ascii ''k2'', ascii ''a2'']]
   \<and> fst (remove_server
       (Map.empty(ascii ''g'' \<mapsto> ascii ''k1 a1 7777'' @ [10] @ ascii ''k2 a2'' @ [10] @ ascii ''k1 a1'' @ [10]))
       (ascii ''g'') (ascii ''k1'') (ascii ''a1'')) = msg_removed (ascii ''k1'') (ascii ''a1'')
   \<and> remove_server (Map.empty(ascii ''g'' \<mapsto> ascii ''k2 a2'' @ [10])) (ascii ''g'') (ascii ''k1'') (ascii ''a1'')
     = (msg_not_found, Map.empty(ascii ''g'' \<mapsto> ascii ''k2 a2'' @ [10]))"
  using remove_server_filters[of
      "Map.empty(ascii ''g'' \<mapsto> ascii ''k1 a1 7777'' @ [10] @ ascii ''k2 a2'' @ [10] @ ascii ''k1 a1'' @ [10])"
      "ascii ''g''" "ascii ''k1''" "ascii ''a1''"]
    remove_server_filters[of "Map.empty(ascii ''g'' \<mapsto> ascii ''k2 a2'' @ [10])"
      "ascii ''g''" "ascii ''k1''" "ascii ''a1''"]
  by (simp add: bind_eval)


section \<open>Round trip of the store\<close>







section \<open>The decoder on the example of the specification\<close>

text \<open>
  Claim C7. An empty \<open>Info\<close> field gives the unknown-name text. On the base64 encoding of
  \<open><b>Test</b> [color=red]Server[/color]\<close> the decoder removes \<open><b>\<close>, \<open></b>\<close> and
  \<open>[/color]\<close> but not \<open>[color=red]\<close>, which the pattern does not match because of the
  \<open>=\<close>: the result is \<open>Test [color=red]Server\<close> and not \<open>Test Server\<close>.
\<close>

theorem extract_server_name_example:
  "extract_server_name (JStr []) = unknown_server
   \<and> extract_server_name (JStr (ascii ''PGI+VGVzdDwvYj4gW2NvbG9yPXJlZF1TZXJ2ZXJbL2NvbG9yXQ==''))
     = ascii ''Test [color=red]Server''
   \<and> extract_server_name (JStr (ascii ''PGI+VGVzdDwvYj4gW2NvbG9yPXJlZF1TZXJ2ZXJbL2NvbG9yXQ==''))
     \<noteq> ascii ''Test Server''"
  by (simp add: extract_server_name_def b64decode_def b64_value_def ascii_def tag_match_def
      is_letter_def py_split_def is_space_def)

section \<open>The targets of a query\<close>

lemma first_seen_set: "set (first_seen xs) = set xs"
  by (induction xs rule: first_seen.induct) auto

lemma first_seen_distinct: "distinct (first_seen xs)"
  by (induction xs rule: first_seen.induct) (auto simp: first_seen_set)

lemma targets_loop_first_seen:
  "targets_loop acc ls
   = acc @ first_seen (filter (\<lambda>t. t \<notin> set acc) (map target_of (load_loop [] ls)))"
proof (induction ls arbitrary: acc)
  case Nil
  show ?case by simp
next
  case (Cons l ls)
  let ?parts = "py_split (py_strip l)"
  let ?T = "map target_of (load_loop [] ls)"
  show ?case
  proof (cases "py_strip l \<noteq> [] \<and> 2 \<le> length ?parts")
    case False
    then have "targets_loop acc (l # ls) = targets_loop acc ls"
      and "load_loop [] (l # ls) = load_loop [] ls"
      by (auto simp: Let_def)
    then show ?thesis using Cons.IH[of acc] by simp
  next
    case True
    then have load: "load_loop [] (l # ls) = ?parts # load_loop [] ls"
      using load_loop_acc[of "[?parts]" ls] by (simp add: Let_def)
    show ?thesis
    proof (cases "target_of ?parts \<in> set acc")
      case in_acc: True
      with True have "targets_loop acc (l # ls) = targets_loop acc ls"
        by (simp add: Let_def target_of_def)
      with in_acc load show ?thesis using Cons.IH[of acc] by simp
    next
      case new: False
      with True have "targets_loop acc (l # ls) = targets_loop (acc @ [target_of ?parts]) ls"
        by (simp add: Let_def target_of_def)
      also have "\<dots> = acc @ [target_of ?parts]
          @ first_seen (filter (\<lambda>t. t \<notin> set (acc @ [target_of ?parts])) ?T)"
        using Cons.IH[of "acc @ [target_of ?parts]"] by simp
      also have "filter (\<lambda>t. t \<notin> set (acc @ [target_of ?parts])) ?T
          = filter (\<lambda>y. y \<noteq> target_of ?parts) (filter (\<lambda>t. t \<notin> set acc) ?T)"
        by (simp add: conj_commute)
      finally show ?thesis using new load by simp
    qed
  qed
qed

lemma query_loop_requests:
  "snd (query_loop repr remote n results sent ts) = sent @ map (\<lambda>t. (fst (snd t), fst t)) ts"
  by (induction repr remote n results sent ts rule: query_loop.induct) simp_all

lemma query_loop_results:
  "fst (query_loop repr remote n results sent ts)
   = results @ concat (map (\<lambda>(i, t). query_one repr (remote i (fst (snd t)) (fst t)) t)
                         (zip [n..<n + length ts] ts))"
proof (induction repr remote n results sent ts rule: query_loop.induct)
  case (1 repr remote n results sent)
  show ?case by simp
next
  case (2 repr remote n results sent server_key account_id port rest)
  have "[n..<n + length ((server_key, account_id, port) # rest)] = n # [Suc n..<Suc n + length rest]"
    by (subst upt_rec) simp
  with 2 show ?case by simp
qed


lemma handle_query_targets:
  "requests (handle_query repr remote fs g)
   = map (\<lambda>t. (fst (snd t), fst t)) (first_seen (map target_of (load_servers fs g)))"
proof (cases "fs g")
  case None
  then show ?thesis by (simp add: handle_query_def load_servers_def)
next
  case (Some content)
  have t: "targets_loop [] (file_lines content)
      = first_seen (map target_of (load_loop [] (file_lines content)))"
    using targets_loop_first_seen[of "[]" "file_lines content"] by simp
  show ?thesis
  proof (cases "targets_loop [] (file_lines content) = []")
    case True
    with Some t show ?thesis by (simp add: handle_query_def load_servers_def)
  next
    case False
    with Some have "requests (handle_query repr remote fs g)
        = snd (query_loop repr remote 0 [] [] (targets_loop [] (file_lines content)))"
      by (simp add: handle_query_def Let_def split: prod.splits)
    with Some t show ?thesis by (simp add: query_loop_requests load_servers_def)
  qed
qed

text \<open>
  Claim C4. The requests that the query command sends are, in order, one for each target
  of \<open>first_seen\<close> applied to the tuples (server key, account id, port or none) of the
  stored records: every distinct tuple once, at its first occurrence. So there are as
  many requests as distinct tuples. Records with the same key and account id but
  different ports, or with and without a port, are different targets.
\<close>

theorem query_one_request_per_target:
  "requests (handle_query repr remote fs g)
     = map (\<lambda>t. (fst (snd t), fst t)) (first_seen (map target_of (load_servers fs g)))
   \<and> distinct (first_seen (map target_of (load_servers fs g)))
   \<and> set (first_seen (map target_of (load_servers fs g))) = target_of ` set (load_servers fs g)
   \<and> length (requests (handle_query repr remote fs g)) = card (target_of ` set (load_servers fs g))
   \<and> (p \<noteq> q \<longrightarrow> target_of [k, a, p] \<noteq> target_of [k, a, q])
   \<and> target_of [k, a, p] \<noteq> target_of [k, a]"
proof -
  let ?T = "first_seen (map target_of (load_servers fs g))"
  have s: "set ?T = target_of ` set (load_servers fs g)"
    by (simp add: first_seen_set)
  have "length ?T = card (set ?T)"
    using first_seen_distinct[of "map target_of (load_servers fs g)"] by (simp add: distinct_card)
  then have "length (requests (handle_query repr remote fs g))
      = card (target_of ` set (load_servers fs g))"
    using s by (simp add: handle_query_targets)
  then show ?thesis
    using s first_seen_distinct[of "map target_of (load_servers fs g)"]
    by (simp add: handle_query_targets target_of_def)
qed

lemmas query_eval = handle_query_def file_lines_def py_strip_def py_split_def is_space_def
  ascii_def Let_def target_of_def load_servers_def

theorem query_one_request_per_target_witness:
  "requests (handle_query example_repr (example_api JNull)
      (Map.empty(ascii ''g'' \<mapsto> ascii ''k a'' @ [10] @ ascii ''k a 1'' @ [10] @ ascii ''k a'' @ [10]
                                 @ ascii ''k a 2'' @ [10] @ ascii ''k a 1'' @ [10]))
      (ascii ''g''))
   = [(ascii ''a'', ascii ''k''), (ascii ''a'', ascii ''k''), (ascii ''a'', ascii ''k'')]
   \<and> first_seen (map target_of (load_servers
      (Map.empty(ascii ''g'' \<mapsto> ascii ''k a'' @ [10] @ ascii ''k a 1'' @ [10] @ ascii ''k a'' @ [10]
                                 @ ascii ''k a 2'' @ [10] @ ascii ''k a 1'' @ [10]))
      (ascii ''g'')))
   = [(ascii ''k'', ascii ''a'', None), (ascii ''k'', ascii ''a'', Some (ascii ''1'')),
      (ascii ''k'', ascii ''a'', Some (ascii ''2''))]
   \<and> target_of [ascii ''k'', ascii ''a'', ascii ''1''] \<noteq> target_of [ascii ''k'', ascii ''a'', ascii ''2'']"
  using query_one_request_per_target[of example_repr "example_api JNull"
      "Map.empty(ascii ''g'' \<mapsto> ascii ''k a'' @ [10] @ ascii ''k a 1'' @ [10] @ ascii ''k a'' @ [10]
                                 @ ascii ''k a 2'' @ [10] @ ascii ''k a 1'' @ [10])"
      "ascii ''g''" "ascii ''1''" "ascii ''2''" "ascii ''k''" "ascii ''a''"]
  by (simp add: query_eval)

section \<open>The query command and the store\<close>

text \<open>
  Claim C9. Whatever the stored text of the group and whatever the remote API answers,
  the store after a run of the query command is the store before it: the file of the
  group and the files of all other groups are as they were.
\<close>

theorem handle_query_keeps_store:
  "store_after (handle_query repr remote fs g) = fs"
  by (simp add: handle_query_def Let_def split: option.splits prod.splits)

section \<open>The renderer: which entries are rendered, and under which index\<close>

text \<open>
  The loop of \<open>_parse_servers\<close> renders the kept entries of the enumeration from \<open>i\<close>,
  each under the position it has there.
\<close>

lemma enumerate_from_Cons:
  "enumerate_from i (x # xs) = (i, x) # enumerate_from (Suc i) xs"
  unfolding enumerate_from_def by (subst upt_rec) simp

lemma servers_loop_filter:
  "servers_loop repr account_id port i servers
   = render_each repr account_id (filter (\<lambda>e. kept repr port (snd e)) (enumerate_from i servers))"
proof (induction servers arbitrary: i)
  case Nil
  show ?case by (simp add: enumerate_from_def)
next
  case (Cons s servers)
  show ?case
  proof (cases s)
    case (JObj kvs)
    then show ?thesis
      using Cons.IH[of "Suc i"]
      by (auto simp: enumerate_from_Cons port_text_def Let_def split: sum.splits)
  qed (use Cons.IH[of "Suc i"] in \<open>simp_all add: enumerate_from_Cons\<close>)
qed

lemma render_each_length:
  "render_each repr account_id es = Inr blocks \<Longrightarrow> length blocks = length es"
proof (induction es arbitrary: blocks)
  case Nil
  then show ?case by simp
next
  case (Cons e es)
  obtain i s where "e = (i, s)" by (cases e)
  with Cons show ?case by (auto split: sum.splits)
qed

lemma render_server_header:
  "render_server repr i account_id server server_port = Inr block \<Longrightarrow>
   \<exists>rest. block = header_line i account_id @ [10] @ rest"
  by (auto simp: render_server_def info_lines_def split: sum.splits)

lemma render_each_header:
  "render_each repr account_id es = Inr blocks \<Longrightarrow> n < length es \<Longrightarrow>
   \<exists>rest. blocks ! n = header_line (fst (es ! n)) account_id @ [10] @ rest"
proof (induction es arbitrary: blocks n)
  case Nil
  then show ?case by simp
next
  case (Cons e es)
  obtain i s where e: "e = (i, s)" by (cases e)
  from Cons.prems(1) e obtain b bs where
    b: "render_server repr i account_id (obj_items s) (port_text repr (obj_items s)) = Inr b"
    and bs: "render_each repr account_id es = Inr bs" and blocks: "blocks = b # bs"
    by (auto split: sum.splits)
  show ?case
  proof (cases n)
    case 0
    with render_server_header[OF b] e blocks show ?thesis by simp
  next
    case (Suc m)
    with Cons.prems(2) have "m < length es" by simp
    from Cons.IH[OF bs this] Suc blocks show ?thesis by simp
  qed
qed

lemma enumerate_from_set:
  "(j, x) \<in> set (enumerate_from i xs) \<longleftrightarrow> i \<le> j \<and> j < i + length xs \<and> x = xs ! (j - i)"
proof
  assume "(j, x) \<in> set (enumerate_from i xs)"
  then obtain n where "n < length xs" "j = [i..<i + length xs] ! n" "x = xs ! n"
    by (auto simp: enumerate_from_def set_zip)
  then show "i \<le> j \<and> j < i + length xs \<and> x = xs ! (j - i)" by simp
next
  assume a: "i \<le> j \<and> j < i + length xs \<and> x = xs ! (j - i)"
  then have "j - i < length xs" "[i..<i + length xs] ! (j - i) = j" by auto
  with a show "(j, x) \<in> set (enumerate_from i xs)"
    unfolding enumerate_from_def set_zip by (intro CollectI exI[of _ "j - i"]) simp
qed

lemma render_each_empty: "render_each repr account_id es = Inr [] \<longleftrightarrow> es = []"
proof (cases es)
  case Nil
  then show ?thesis by simp
next
  case (Cons e es')
  obtain i s where "e = (i, s)" by (cases e)
  with Cons show ?thesis by (auto split: sum.splits)
qed

lemma filter_snd_length:
  "length (filter (\<lambda>e. P (snd e)) (enumerate_from i xs)) = length (filter P xs)"
proof (induction xs arbitrary: i)
  case Nil
  show ?case by (simp add: enumerate_from_def)
next
  case (Cons x xs)
  from Cons[of "Suc i"] show ?case by (simp add: enumerate_from_Cons)
qed

lemma filter_snd_empty:
  "filter (\<lambda>e. P (snd e)) (enumerate_from i xs) = [] \<longleftrightarrow> (\<forall>x\<in>set xs. \<not> P x)"
  using filter_snd_length[of P i xs] by (metis filter_empty_conv length_0_conv)

lemma parse_servers_entries:
  assumes "truthy (dict_get kvs (ascii ''Success'') (JBool False))"
    and "dict_get kvs (ascii ''Servers'') (JArr []) = JArr servers"
    and "servers \<noteq> []"
  shows "parse_servers repr server_key account_id (JObj kvs) port =
     (case render_each repr account_id
             (filter (\<lambda>e. kept repr port (snd e)) (enumerate_from 1 servers)) of
        Inl e \<Rightarrow> Inl e
      | Inr blocks \<Rightarrow>
          if truthy_port port \<and> blocks = [] then Inr [port_not_found_line (the port)]
          else Inr blocks)"
  using assms by (simp add: parse_servers_def servers_loop_filter)

lemmas render_eval = parse_servers_def render_server_def info_lines_def flag_lines_def
  roster_lines_def header_line_def dict_get_def str_int_def extract_server_name_def
  unknown_server_def unknown_def port_not_found_line_def port_text_def enumerate_from_def
  example_response_def example_server_def example_repr_def ascii_def Let_def

section \<open>The port filter\<close>

text \<open>
  Claim C5. When a port filter is supplied (a third token that is not the empty text), the
  response reports success and its server list is a non-empty list: the kept entries are
  the dicts whose port, as \<open>str\<close> prints it, is the filter; the result is the blocks of
  the kept entries only, in their order, so that an entry with another port produces no
  block; when every entry is skipped the result is the single line that says that there
  is no data for this port; and when an entry is kept, a result has one block for each
  kept entry.
\<close>

theorem parse_servers_port_filter:
  assumes "truthy_port port"
    and "truthy (dict_get kvs (ascii ''Success'') (JBool False))"
    and "dict_get kvs (ascii ''Servers'') (JArr []) = JArr servers"
    and "servers \<noteq> []"
  shows "(\<forall>s. kept repr port s \<longleftrightarrow> is_obj s \<and> port_text repr (obj_items s) = the port)
    \<and> parse_servers repr server_key account_id (JObj kvs) port =
        (case render_each repr account_id
                (filter (\<lambda>e. kept repr port (snd e)) (enumerate_from 1 servers)) of
           Inl e \<Rightarrow> Inl e
         | Inr blocks \<Rightarrow>
             if blocks = [] then Inr [port_not_found_line (the port)] else Inr blocks)
    \<and> ((\<forall>s\<in>set servers. \<not> kept repr port s) \<longrightarrow>
         parse_servers repr server_key account_id (JObj kvs) port
         = Inr [port_not_found_line (the port)])
    \<and> ((\<exists>s\<in>set servers. kept repr port s) \<longrightarrow>
         (\<forall>blocks. parse_servers repr server_key account_id (JObj kvs) port = Inr blocks \<longrightarrow>
            length blocks = length (filter (kept repr port) servers)))"
proof (intro conjI allI impI)
  fix s
  show "kept repr port s \<longleftrightarrow> is_obj s \<and> port_text repr (obj_items s) = the port"
    using assms(1) by (cases s) simp_all
next
  show p: "parse_servers repr server_key account_id (JObj kvs) port =
        (case render_each repr account_id
                (filter (\<lambda>e. kept repr port (snd e)) (enumerate_from 1 servers)) of
           Inl e \<Rightarrow> Inl e
         | Inr blocks \<Rightarrow>
             if blocks = [] then Inr [port_not_found_line (the port)] else Inr blocks)"
    using parse_servers_entries[OF assms(2-4), of repr server_key account_id port] assms(1)
    by (simp split: sum.splits)
next
  assume "\<forall>s\<in>set servers. \<not> kept repr port s"
  then have "filter (\<lambda>e. kept repr port (snd e)) (enumerate_from 1 servers) = []"
    by (simp only: filter_snd_empty)
  then show "parse_servers repr server_key account_id (JObj kvs) port
         = Inr [port_not_found_line (the port)]"
    using parse_servers_entries[OF assms(2-4), of repr server_key account_id port] assms(1)
    by simp
next
  fix blocks
  assume k: "\<exists>s\<in>set servers. kept repr port s"
    and b: "parse_servers repr server_key account_id (JObj kvs) port = Inr blocks"
  let ?es = "filter (\<lambda>e. kept repr port (snd e)) (enumerate_from 1 servers)"
  from k have ne: "?es \<noteq> []" by (simp only: filter_snd_empty) simp
  from b parse_servers_entries[OF assms(2-4), of repr server_key account_id port]
  obtain bs where bs: "render_each repr account_id ?es = Inr bs"
    and blocks: "blocks = (if truthy_port port \<and> bs = [] then [port_not_found_line (the port)] else bs)"
    by (auto split: sum.splits if_splits)
  from bs ne have "bs \<noteq> []" using render_each_empty[of repr account_id ?es] by auto
  with blocks have "blocks = bs" by simp
  with render_each_length[OF bs] show "length blocks = length (filter (kept repr port) servers)"
    by (simp only: filter_snd_length)
qed

theorem parse_servers_port_filter_witness:
  "truthy_port (Some (ascii ''7778''))
   \<and> \<not> kept example_repr (Some (ascii ''7778'')) (example_server 7777)
   \<and> kept example_repr (Some (ascii ''7778'')) (example_server 7778)
   \<and> parse_servers example_repr (ascii ''k'') (ascii ''a'')
        (example_response [example_server 7777, example_server 7778, JInt 7778])
        (Some (ascii ''7778''))
      = render_each example_repr (ascii ''a'') [(2, example_server 7778)]
   \<and> length (projr (parse_servers example_repr (ascii ''k'') (ascii ''a'')
        (example_response [example_server 7777, example_server 7778, JInt 7778])
        (Some (ascii ''7778'')))) = 1
   \<and> parse_servers example_repr (ascii ''k'') (ascii ''a'')
        (example_response [example_server 7777, example_server 7778, JInt 7778])
        (Some (ascii ''9''))
      = Inr [port_not_found_line (ascii ''9'')]"
  using parse_servers_port_filter[of "Some (ascii ''7778'')"
      "[(ascii ''Success'', JBool True),
        (ascii ''Servers'', JArr [example_server 7777, example_server 7778, JInt 7778])]"
      "[example_server 7777, example_server 7778, JInt 7778]"
      example_repr "ascii ''k''" "ascii ''a''"]
  by (simp add: render_eval)

text \<open>The decimal numeral of a number is not empty, and two numbers with one numeral are equal.\<close>

lemma str_nat_nonempty: "str_nat n \<noteq> []"
  by (subst str_nat.simps) simp

lemma str_nat_inj: "str_nat m = str_nat n \<Longrightarrow> m = n"
proof (induction m arbitrary: n rule: str_nat.induct)
  case (1 m)
  show ?case
  proof (cases "m < 10")
    case True
    then have m: "str_nat m = [48 + m]" by (subst str_nat.simps) simp
    show ?thesis
    proof (cases "n < 10")
      case True
      then have "str_nat n = [48 + n]" by (subst str_nat.simps) simp
      with m "1.prems" show ?thesis by simp
    next
      case False
      then have "str_nat n = str_nat (n div 10) @ [48 + n mod 10]"
        by (subst str_nat.simps) simp
      with m "1.prems" have "str_nat (n div 10) = []" by simp
      with str_nat_nonempty show ?thesis by blast
    qed
  next
    case False
    then have m: "str_nat m = str_nat (m div 10) @ [48 + m mod 10]"
      by (subst str_nat.simps) simp
    show ?thesis
    proof (cases "n < 10")
      case True
      then have "str_nat n = [48 + n]" by (subst str_nat.simps) simp
      with m "1.prems" have "str_nat (m div 10) = []" by simp
      with str_nat_nonempty show ?thesis by blast
    next
      case n: False
      then have "str_nat n = str_nat (n div 10) @ [48 + n mod 10]"
        by (subst str_nat.simps) simp
      with m "1.prems" have "str_nat (m div 10) = str_nat (n div 10)" and r: "m mod 10 = n mod 10"
        by simp_all
      with "1.IH"[OF False] have "m div 10 = n div 10" by blast
      with r show ?thesis by (metis div_mult_mod_eq)
    qed
  qed
qed


section \<open>The index of a block\<close>

text \<open>
  Claim C10. For a response that reports success, of which an entry is kept: the result
  has one block for each kept entry of the enumeration of the server list from 1. The
  first line of the block is the header line, whose text is the fixed words, the decimal
  numeral of the number that the entry has in that enumeration, and the account id in
  brackets. This number is the 1-based position of the entry in the original list,
  entries that are skipped counted, and two positions have two numerals. So the indices
  of the blocks need not be contiguous, and a sole block can have an index above 1.
\<close>

theorem parse_servers_index:
  assumes "truthy (dict_get kvs (ascii ''Success'') (JBool False))"
    and "dict_get kvs (ascii ''Servers'') (JArr []) = JArr servers"
    and "\<exists>s\<in>set servers. kept repr port s"
    and "parse_servers repr server_key account_id (JObj kvs) port = Inr blocks"
    and "es = filter (\<lambda>e. kept repr port (snd e)) (enumerate_from 1 servers)"
  shows "length blocks = length es
    \<and> (\<forall>n<length es.
          (\<exists>rest. blocks ! n = header_line (fst (es ! n)) account_id @ [10] @ rest)
          \<and> header_line (fst (es ! n)) account_id
            = [0x1F5A5, 0xFE0F, 32, 0x670D, 0x52A1, 0x5668] @ str_nat (fst (es ! n))
              @ ascii '' ['' @ account_id @ ascii '']''
          \<and> 1 \<le> fst (es ! n) \<and> fst (es ! n) \<le> length servers
          \<and> snd (es ! n) = servers ! (fst (es ! n) - 1))
    \<and> (\<forall>i j. str_nat i = str_nat j \<longrightarrow> i = j)"
proof -
  from assms(3) have sne: "servers \<noteq> []" by auto
  from assms(3,5) have ne: "es \<noteq> []" by (simp only: filter_snd_empty) simp
  from assms(4) parse_servers_entries[OF assms(1,2) sne, of repr server_key account_id port]
  obtain bs where bs: "render_each repr account_id es = Inr bs"
    and blocks: "blocks = (if truthy_port port \<and> bs = [] then [port_not_found_line (the port)] else bs)"
    unfolding assms(5) by (auto split: sum.splits if_splits)
  from bs ne have "bs \<noteq> []" using render_each_empty[of repr account_id es] by auto
  with blocks have eq: "blocks = bs" by simp
  have len: "length blocks = length es" using render_each_length[OF bs] eq by simp
  have each: "(\<exists>rest. blocks ! n = header_line (fst (es ! n)) account_id @ [10] @ rest)
          \<and> header_line (fst (es ! n)) account_id
            = [0x1F5A5, 0xFE0F, 32, 0x670D, 0x52A1, 0x5668] @ str_nat (fst (es ! n))
              @ ascii '' ['' @ account_id @ ascii '']''
          \<and> 1 \<le> fst (es ! n) \<and> fst (es ! n) \<le> length servers
          \<and> snd (es ! n) = servers ! (fst (es ! n) - 1)" if n: "n < length es" for n
  proof -
    from n have "es ! n \<in> set es" by simp
    then have "(fst (es ! n), snd (es ! n)) \<in> set (enumerate_from 1 servers)"
      unfolding assms(5) by simp
    then have "1 \<le> fst (es ! n) \<and> fst (es ! n) < 1 + length servers
        \<and> snd (es ! n) = servers ! (fst (es ! n) - 1)"
      by (simp only: enumerate_from_set)
    moreover have "header_line (fst (es ! n)) account_id
            = [0x1F5A5, 0xFE0F, 32, 0x670D, 0x52A1, 0x5668] @ str_nat (fst (es ! n))
              @ ascii '' ['' @ account_id @ ascii '']''"
      by (simp only: header_line_def)
    ultimately show ?thesis using render_each_header[OF bs n] eq by simp
  qed
  have inj: "\<forall>i j. str_nat i = str_nat j \<longrightarrow> i = j" using str_nat_inj by blast
  from len each inj show ?thesis by blast
qed

text \<open>
  With the ports 7778, 7777 and 7778 and the filter 7778, the blocks are those of the
  first and of the third entry, under the indices 1 and 3. With the ports 7777 and 7778
  and the filter 7778, the sole block has the index 2. With an entry that is not a dict
  before the entry of port 7777 and no filter, the sole block has the index 2.
\<close>

theorem parse_servers_index_witness:
  "parse_servers example_repr (ascii ''k'') (ascii ''a'')
     (example_response [example_server 7778, example_server 7777, example_server 7778])
     (Some (ascii ''7778''))
   = Inr [[0x1F5A5, 0xFE0F, 32, 0x670D, 0x52A1, 0x5668] @ ascii ''1 [a]'' @ [10]
         @ ascii ''  '' @ [0x1F3F7, 0xFE0F, 32, 0x540D, 0x79F0] @ ascii '': ''
         @ [0x672A, 0x77E5, 0x670D, 0x52A1, 0x5668, 10] @ ascii ''  '' @ [0x1F194]
         @ ascii '' ID: '' @ [0x672A, 0x77E5, 10] @ ascii ''  ''
         @ [0x1F552, 32, 0x6700, 0x540E, 0x5728, 0x7EBF] @ ascii '': '' @ [0x672A, 0x77E5, 10]
         @ ascii ''  '' @ [0x1F50C, 32, 0x7AEF, 0x53E3] @ ascii '': 7778'' @ [10]
         @ ascii ''  '' @ [0x1F4E6, 32, 0x7248, 0x672C] @ ascii '': '' @ [0x672A, 0x77E5, 10]
         @ ascii ''  '' @ [0x1F465, 32, 0x4EBA, 0x6570] @ ascii '': 0/0'',
          [0x1F5A5, 0xFE0F, 32, 0x670D, 0x52A1, 0x5668] @ ascii ''3 [a]'' @ [10]
         @ ascii ''  '' @ [0x1F3F7, 0xFE0F, 32, 0x540D, 0x79F0] @ ascii '': ''
         @ [0x672A, 0x77E5, 0x670D, 0x52A1, 0x5668, 10] @ ascii ''  '' @ [0x1F194]
         @ ascii '' ID: '' @ [0x672A, 0x77E5, 10] @ ascii ''  ''
         @ [0x1F552, 32, 0x6700, 0x540E, 0x5728, 0x7EBF] @ ascii '': '' @ [0x672A, 0x77E5, 10]
         @ ascii ''  '' @ [0x1F50C, 32, 0x7AEF, 0x53E3] @ ascii '': 7778'' @ [10]
         @ ascii ''  '' @ [0x1F4E6, 32, 0x7248, 0x672C] @ ascii '': '' @ [0x672A, 0x77E5, 10]
         @ ascii ''  '' @ [0x1F465, 32, 0x4EBA, 0x6570] @ ascii '': 0/0'']
   \<and> filter (\<lambda>e. kept example_repr (Some (ascii ''7778'')) (snd e))
        (enumerate_from 1 [example_server 7778, example_server 7777, example_server 7778])
     = [(1, example_server 7778), (3, example_server 7778)]
   \<and> parse_servers example_repr (ascii ''k'') (ascii ''a'')
        (example_response [example_server 7777, example_server 7778])
        (Some (ascii ''7778''))
     = Inr [[0x1F5A5, 0xFE0F, 32, 0x670D, 0x52A1, 0x5668] @ ascii ''2 [a]'' @ [10]
         @ ascii ''  '' @ [0x1F3F7, 0xFE0F, 32, 0x540D, 0x79F0] @ ascii '': ''
         @ [0x672A, 0x77E5, 0x670D, 0x52A1, 0x5668, 10] @ ascii ''  '' @ [0x1F194]
         @ ascii '' ID: '' @ [0x672A, 0x77E5, 10] @ ascii ''  ''
         @ [0x1F552, 32, 0x6700, 0x540E, 0x5728, 0x7EBF] @ ascii '': '' @ [0x672A, 0x77E5, 10]
         @ ascii ''  '' @ [0x1F50C, 32, 0x7AEF, 0x53E3] @ ascii '': 7778'' @ [10]
         @ ascii ''  '' @ [0x1F4E6, 32, 0x7248, 0x672C] @ ascii '': '' @ [0x672A, 0x77E5, 10]
         @ ascii ''  '' @ [0x1F465, 32, 0x4EBA, 0x6570] @ ascii '': 0/0'']
   \<and> parse_servers example_repr (ascii ''k'') (ascii ''a'')
        (example_response [JInt 1, example_server 7777]) None
     = Inr [[0x1F5A5, 0xFE0F, 32, 0x670D, 0x52A1, 0x5668] @ ascii ''2 [a]'' @ [10]
         @ ascii ''  '' @ [0x1F3F7, 0xFE0F, 32, 0x540D, 0x79F0] @ ascii '': ''
         @ [0x672A, 0x77E5, 0x670D, 0x52A1, 0x5668, 10] @ ascii ''  '' @ [0x1F194]
         @ ascii '' ID: '' @ [0x672A, 0x77E5, 10] @ ascii ''  ''
         @ [0x1F552, 32, 0x6700, 0x540E, 0x5728, 0x7EBF] @ ascii '': '' @ [0x672A, 0x77E5, 10]
         @ ascii ''  '' @ [0x1F50C, 32, 0x7AEF, 0x53E3] @ ascii '': 7777'' @ [10]
         @ ascii ''  '' @ [0x1F4E6, 32, 0x7248, 0x672C] @ ascii '': '' @ [0x672A, 0x77E5, 10]
         @ ascii ''  '' @ [0x1F465, 32, 0x4EBA, 0x6570] @ ascii '': 0/0'']"
  using parse_servers_index[of
      "[(ascii ''Success'', JBool True),
        (ascii ''Servers'', JArr [example_server 7778, example_server 7777, example_server 7778])]"
      "[example_server 7778, example_server 7777, example_server 7778]"
      example_repr "Some (ascii ''7778'')" "ascii ''k''" "ascii ''a''"
      "projr (parse_servers example_repr (ascii ''k'') (ascii ''a'')
        (example_response [example_server 7778, example_server 7777, example_server 7778])
        (Some (ascii ''7778'')))"
      "[(1, example_server 7778), (3, example_server 7778)]"]
  by (simp add: render_eval)

section \<open>The player roster\<close>





section \<open>The reply of the query command\<close>

text \<open>
  The reply to a group that has targets: the result lines of the targets, in the order of
  the targets, joined by a blank line. The \<open>i\<close>-th target is answered by the \<open>i\<close>-th
  request.
\<close>

lemma handle_query_reply:
  assumes "first_seen (map target_of (load_servers fs g)) = ts" and "ts \<noteq> []"
  shows "reply (handle_query repr remote fs g)
   = (let results = concat (map (\<lambda>(i, t). query_one repr (remote i (fst (snd t)) (fst t)) t)
                              (zip [0..<length ts] ts))
      in if results \<noteq> [] then py_join [10, 10] results else all_failed_msg)"
proof (cases "fs g")
  case None
  with assms show ?thesis by (simp add: load_servers_def)
next
  case (Some content)
  have t: "targets_loop [] (file_lines content) = ts"
    using targets_loop_first_seen[of "[]" "file_lines content"] assms(1) Some
    by (simp add: load_servers_def)
  have "reply (handle_query repr remote fs g)
      = (let results = fst (query_loop repr remote 0 [] [] ts)
         in if results \<noteq> [] then py_join [10, 10] results else all_failed_msg)"
    using Some t assms(2) by (simp add: handle_query_def Let_def split: prod.splits)
  then show ?thesis by (simp add: query_loop_results)
qed

lemmas reply_eval = handle_query_def file_lines_def py_strip_def py_split_def is_space_def
  target_of_def load_servers_def example_store_def example_api_def timeout_line_def
  http_failed_line_def query_one_def

text \<open>
  Three bindings, of which the first times out, the second is answered with status 500
  and the third with a successful response. When the server list of the response holds
  one entry that is not a dict, the reply has two sections: the third target adds none.
  When it holds two entries, the reply has four sections: the third target adds two.
\<close>

theorem handle_query_three_targets_counterexample:
  "first_seen (map target_of (load_servers example_store (ascii ''g'')))
   = [(ascii ''k1'', ascii ''a1'', None), (ascii ''k2'', ascii ''a2'', None),
      (ascii ''k3'', ascii ''a3'', None)]
   \<and> reply (handle_query example_repr (example_api (example_response [JInt 1]))
        example_store (ascii ''g''))
     = py_join [10, 10] [timeout_line (ascii ''k1''), http_failed_line (ascii ''k2'') 500]
   \<and> reply (handle_query example_repr
          (example_api (example_response [example_server 7777, example_server 7778]))
          example_store (ascii ''g''))
     = py_join [10, 10]
         ([timeout_line (ascii ''k1''), http_failed_line (ascii ''k2'') 500]
          @ projr (render_each example_repr (ascii ''a3'')
                     [(1, example_server 7777), (2, example_server 7778)]))
   \<and> length (projr (render_each example_repr (ascii ''a3'')
                      [(1, example_server 7777), (2, example_server 7778)])) = 2"
  by (simp add: reply_eval render_eval)

text \<open>
  Claim C3. For a group with three targets whose outcomes are, in the order of the
  targets, a timeout, a response with a status other than 200 and a response with status
  200 and a JSON body: the reply is, joined by a blank line and in this order, the
  timeout line of the first target, the line of the HTTP status of the second, and the
  result lines of the third, which are the blocks that its response renders to, one
  section for each block (or one line that names the exception that the rendering
  raised). Every section is a function of its own target and outcome only. The reply has
  three sections when the third response renders to one block.
\<close>

theorem handle_query_three_targets:
  assumes "first_seen (map target_of (load_servers fs g)) = [(k1, a1, p1), (k2, a2, p2), (k3, a3, p3)]"
    and "remote 0 a1 k1 = TimedOut"
    and "remote 1 a2 k2 = Responded status b"
    and "status \<noteq> 200"
    and "remote 2 a3 k3 = Responded 200 (Json data)"
  shows "reply (handle_query repr remote fs g)
   = py_join [10, 10]
       ([timeout_line k1, http_failed_line k2 status]
        @ (case parse_servers repr k3 a3 data p3 of
             Inl e \<Rightarrow> [exception_line k3 (exc_name e)]
           | Inr blocks \<Rightarrow> blocks))"
proof -
  let ?third = "case parse_servers repr k3 a3 data p3 of
             Inl e \<Rightarrow> [exception_line k3 (exc_name e)]
           | Inr blocks \<Rightarrow> blocks"
  have z: "zip [0..<length [(k1, a1, p1), (k2, a2, p2), (k3, a3, p3)]]
             [(k1, a1, p1), (k2, a2, p2), (k3, a3, p3)]
      = [(0, (k1, a1, p1)), (1, (k2, a2, p2)), (2, (k3, a3, p3))]"
    by (simp add: upt_rec)
  have q1: "query_one repr (remote 0 a1 k1) (k1, a1, p1) = [timeout_line k1]"
    using assms(2) by (simp add: query_one_def)
  have q2: "query_one repr (remote 1 a2 k2) (k2, a2, p2) = [http_failed_line k2 status]"
    using assms(3,4) by (simp add: query_one_def)
  have q3: "query_one repr (remote 2 a3 k3) (k3, a3, p3) = ?third"
    using assms(5) by (simp add: query_one_def)
  have c: "concat (map (\<lambda>(i, t). query_one repr (remote i (fst (snd t)) (fst t)) t)
             (zip [0..<length [(k1, a1, p1), (k2, a2, p2), (k3, a3, p3)]]
                [(k1, a1, p1), (k2, a2, p2), (k3, a3, p3)]))
      = [timeout_line k1, http_failed_line k2 status] @ ?third"
    unfolding z using q1 q2 q3 by simp
  show ?thesis
    using handle_query_reply[OF assms(1), of repr remote]
    unfolding c by (simp add: Let_def)
qed

theorem handle_query_three_targets_witness:
  "first_seen (map target_of (load_servers example_store (ascii ''g'')))
   = [(ascii ''k1'', ascii ''a1'', None), (ascii ''k2'', ascii ''a2'', None),
      (ascii ''k3'', ascii ''a3'', None)]
   \<and> example_api (example_response [example_server 7777]) 0 (ascii ''a1'') (ascii ''k1'')
     = TimedOut
   \<and> example_api (example_response [example_server 7777]) 1 (ascii ''a2'') (ascii ''k2'')
     = Responded 500 NotJson
   \<and> example_api (example_response [example_server 7777]) 2 (ascii ''a3'') (ascii ''k3'')
     = Responded 200 (Json (example_response [example_server 7777]))
   \<and> (\<exists>block.
        reply (handle_query example_repr (example_api (example_response [example_server 7777]))
          example_store (ascii ''g''))
        = py_join [10, 10]
            [timeout_line (ascii ''k1''), http_failed_line (ascii ''k2'') 500,
             header_line 1 (ascii ''a3'') @ block])"
  using handle_query_three_targets[of example_store "ascii ''g''"
      "ascii ''k1''" "ascii ''a1''" None "ascii ''k2''" "ascii ''a2''" None
      "ascii ''k3''" "ascii ''a3''" None
      "example_api (example_response [example_server 7777])" 500 NotJson
      "example_response [example_server 7777]" example_repr]
  by (simp add: reply_eval render_eval)

end
